theory Spec2Isabelle
  imports Complex_Main
begin

section \<open>Status codes (include/ph\_error.h)\<close>

text \<open>
  \<^verbatim>\<open>PHErrorCode\<close> is a C enumeration: every enumerator is an \<^verbatim>\<open>int\<close> constant whose
  value is the initialiser written next to it. An enumerator whose initialiser is another
  enumerator (the compatibility aliases at the end of the enumeration) is defined here by
  that enumerator, as in the header.
\<close>

type_synonym PHErrorCode = int

definition PH_OK :: PHErrorCode where "PH_OK = 0"

definition PH_ERROR_INPUT_NULL :: PHErrorCode where "PH_ERROR_INPUT_NULL = - 101"
definition PH_ERROR_INPUT_INVALID_COMPOSITION :: PHErrorCode where
  "PH_ERROR_INPUT_INVALID_COMPOSITION = - 102"
definition PH_ERROR_INPUT_INVALID_PRESSURE :: PHErrorCode where
  "PH_ERROR_INPUT_INVALID_PRESSURE = - 103"
definition PH_ERROR_INPUT_INVALID_TEMPERATURE :: PHErrorCode where
  "PH_ERROR_INPUT_INVALID_TEMPERATURE = - 104"
definition PH_ERROR_INPUT_INVALID_ENTHALPY :: PHErrorCode where
  "PH_ERROR_INPUT_INVALID_ENTHALPY = - 105"
definition PH_ERROR_INPUT_OUT_OF_RANGE :: PHErrorCode where
  "PH_ERROR_INPUT_OUT_OF_RANGE = - 106"
definition PH_ERROR_INPUT_INCONSISTENT :: PHErrorCode where
  "PH_ERROR_INPUT_INCONSISTENT = - 107"

definition PH_ERROR_NUMERICAL_OVERFLOW :: PHErrorCode where
  "PH_ERROR_NUMERICAL_OVERFLOW = - 201"
definition PH_ERROR_NUMERICAL_UNDERFLOW :: PHErrorCode where
  "PH_ERROR_NUMERICAL_UNDERFLOW = - 202"
definition PH_ERROR_NUMERICAL_DIVISION_BY_ZERO :: PHErrorCode where
  "PH_ERROR_NUMERICAL_DIVISION_BY_ZERO = - 203"
definition PH_ERROR_NUMERICAL_INVALID_RESULT :: PHErrorCode where
  "PH_ERROR_NUMERICAL_INVALID_RESULT = - 204"
definition PH_ERROR_NUMERICAL_PRECISION_LOSS :: PHErrorCode where
  "PH_ERROR_NUMERICAL_PRECISION_LOSS = - 205"
definition PH_ERROR_NUMERICAL_MATRIX_SINGULAR :: PHErrorCode where
  "PH_ERROR_NUMERICAL_MATRIX_SINGULAR = - 206"

definition PH_ERROR_CONVERGENCE_MAX_ITERATIONS :: PHErrorCode where
  "PH_ERROR_CONVERGENCE_MAX_ITERATIONS = - 301"
definition PH_ERROR_CONVERGENCE_SLOW :: PHErrorCode where
  "PH_ERROR_CONVERGENCE_SLOW = - 302"
definition PH_ERROR_CONVERGENCE_OSCILLATION :: PHErrorCode where
  "PH_ERROR_CONVERGENCE_OSCILLATION = - 303"
definition PH_ERROR_CONVERGENCE_DIVERGENCE :: PHErrorCode where
  "PH_ERROR_CONVERGENCE_DIVERGENCE = - 304"
definition PH_ERROR_CONVERGENCE_STAGNATION :: PHErrorCode where
  "PH_ERROR_CONVERGENCE_STAGNATION = - 305"
definition PH_ERROR_CONVERGENCE_TOLERANCE :: PHErrorCode where
  "PH_ERROR_CONVERGENCE_TOLERANCE = - 306"

definition PH_ERROR_PHYSICAL_NEGATIVE_COMPOSITION :: PHErrorCode where
  "PH_ERROR_PHYSICAL_NEGATIVE_COMPOSITION = - 401"
definition PH_ERROR_PHYSICAL_INVALID_PHASE :: PHErrorCode where
  "PH_ERROR_PHYSICAL_INVALID_PHASE = - 402"
definition PH_ERROR_PHYSICAL_UNSTABLE_SOLUTION :: PHErrorCode where
  "PH_ERROR_PHYSICAL_UNSTABLE_SOLUTION = - 403"
definition PH_ERROR_PHYSICAL_IMPOSSIBLE_STATE :: PHErrorCode where
  "PH_ERROR_PHYSICAL_IMPOSSIBLE_STATE = - 404"
definition PH_ERROR_PHYSICAL_CRITICAL_REGION :: PHErrorCode where
  "PH_ERROR_PHYSICAL_CRITICAL_REGION = - 405"
definition PH_ERROR_PHYSICAL_FUGACITY_BALANCE :: PHErrorCode where
  "PH_ERROR_PHYSICAL_FUGACITY_BALANCE = - 406"

definition PH_ERROR_MEMORY_ALLOCATION :: PHErrorCode where
  "PH_ERROR_MEMORY_ALLOCATION = - 501"
definition PH_ERROR_MEMORY_DEALLOCATION :: PHErrorCode where
  "PH_ERROR_MEMORY_DEALLOCATION = - 502"
definition PH_ERROR_MEMORY_CORRUPTION :: PHErrorCode where
  "PH_ERROR_MEMORY_CORRUPTION = - 503"
definition PH_ERROR_MEMORY_LEAK :: PHErrorCode where
  "PH_ERROR_MEMORY_LEAK = - 504"
definition PH_ERROR_MEMORY_ACCESS_VIOLATION :: PHErrorCode where
  "PH_ERROR_MEMORY_ACCESS_VIOLATION = - 505"

definition PH_ERROR_ALGORITHM_TPD_FAILURE :: PHErrorCode where
  "PH_ERROR_ALGORITHM_TPD_FAILURE = - 601"
definition PH_ERROR_ALGORITHM_RACHFORD_RICE :: PHErrorCode where
  "PH_ERROR_ALGORITHM_RACHFORD_RICE = - 602"
definition PH_ERROR_ALGORITHM_ANDERSON_FAILURE :: PHErrorCode where
  "PH_ERROR_ALGORITHM_ANDERSON_FAILURE = - 603"
definition PH_ERROR_ALGORITHM_LINE_SEARCH_FAILURE :: PHErrorCode where
  "PH_ERROR_ALGORITHM_LINE_SEARCH_FAILURE = - 604"
definition PH_ERROR_ALGORITHM_NEWTON_FAILURE :: PHErrorCode where
  "PH_ERROR_ALGORITHM_NEWTON_FAILURE = - 605"
definition PH_ERROR_ALGORITHM_EOS_FAILURE :: PHErrorCode where
  "PH_ERROR_ALGORITHM_EOS_FAILURE = - 606"

definition PH_ERROR_CONFIG_INVALID :: PHErrorCode where
  "PH_ERROR_CONFIG_INVALID = - 701"
definition PH_ERROR_CONFIG_MISSING :: PHErrorCode where
  "PH_ERROR_CONFIG_MISSING = - 702"
definition PH_ERROR_FILE_IO :: PHErrorCode where
  "PH_ERROR_FILE_IO = - 703"
definition PH_ERROR_SYSTEM_RESOURCE :: PHErrorCode where
  "PH_ERROR_SYSTEM_RESOURCE = - 704"
definition PH_ERROR_NOT_IMPLEMENTED :: PHErrorCode where
  "PH_ERROR_NOT_IMPLEMENTED = - 705"
definition PH_ERROR_VERSION_INCOMPATIBLE :: PHErrorCode where
  "PH_ERROR_VERSION_INCOMPATIBLE = - 706"

definition PH_ERROR_UNKNOWN :: PHErrorCode where "PH_ERROR_UNKNOWN = - 901"
definition PH_ERROR_INTERNAL :: PHErrorCode where "PH_ERROR_INTERNAL = - 902"
definition PH_ERROR_FATAL :: PHErrorCode where "PH_ERROR_FATAL = - 903"

text \<open>The compatibility aliases, each initialised with its target enumerator.\<close>

definition PH_ERROR_CONVERGENCE :: PHErrorCode where
  "PH_ERROR_CONVERGENCE = PH_ERROR_CONVERGENCE_MAX_ITERATIONS"
definition PH_ERROR_INPUT_VALIDATION :: PHErrorCode where
  "PH_ERROR_INPUT_VALIDATION = PH_ERROR_INPUT_NULL"
definition PH_ERROR_NUMERICAL :: PHErrorCode where
  "PH_ERROR_NUMERICAL = PH_ERROR_NUMERICAL_INVALID_RESULT"
definition PH_ERROR_UNSTABLE :: PHErrorCode where
  "PH_ERROR_UNSTABLE = PH_ERROR_PHYSICAL_UNSTABLE_SOLUTION"
definition PH_ERROR_SOLUTION_VALIDATION :: PHErrorCode where
  "PH_ERROR_SOLUTION_VALIDATION = PH_ERROR_PHYSICAL_INVALID_PHASE"
definition PH_ERROR_CALCULATION :: PHErrorCode where
  "PH_ERROR_CALCULATION = PH_ERROR_NUMERICAL_INVALID_RESULT"

text \<open>
  Every enumerator of \<^verbatim>\<open>PHErrorCode\<close> other than \<^verbatim>\<open>PH_OK\<close>, in the order of the
  header, the six aliases last.
\<close>

definition PHErrorCode_failures :: "PHErrorCode list" where
  "PHErrorCode_failures =
     [PH_ERROR_INPUT_NULL, PH_ERROR_INPUT_INVALID_COMPOSITION,
      PH_ERROR_INPUT_INVALID_PRESSURE, PH_ERROR_INPUT_INVALID_TEMPERATURE,
      PH_ERROR_INPUT_INVALID_ENTHALPY, PH_ERROR_INPUT_OUT_OF_RANGE,
      PH_ERROR_INPUT_INCONSISTENT,
      PH_ERROR_NUMERICAL_OVERFLOW, PH_ERROR_NUMERICAL_UNDERFLOW,
      PH_ERROR_NUMERICAL_DIVISION_BY_ZERO, PH_ERROR_NUMERICAL_INVALID_RESULT,
      PH_ERROR_NUMERICAL_PRECISION_LOSS, PH_ERROR_NUMERICAL_MATRIX_SINGULAR,
      PH_ERROR_CONVERGENCE_MAX_ITERATIONS, PH_ERROR_CONVERGENCE_SLOW,
      PH_ERROR_CONVERGENCE_OSCILLATION, PH_ERROR_CONVERGENCE_DIVERGENCE,
      PH_ERROR_CONVERGENCE_STAGNATION, PH_ERROR_CONVERGENCE_TOLERANCE,
      PH_ERROR_PHYSICAL_NEGATIVE_COMPOSITION, PH_ERROR_PHYSICAL_INVALID_PHASE,
      PH_ERROR_PHYSICAL_UNSTABLE_SOLUTION, PH_ERROR_PHYSICAL_IMPOSSIBLE_STATE,
      PH_ERROR_PHYSICAL_CRITICAL_REGION, PH_ERROR_PHYSICAL_FUGACITY_BALANCE,
      PH_ERROR_MEMORY_ALLOCATION, PH_ERROR_MEMORY_DEALLOCATION,
      PH_ERROR_MEMORY_CORRUPTION, PH_ERROR_MEMORY_LEAK,
      PH_ERROR_MEMORY_ACCESS_VIOLATION,
      PH_ERROR_ALGORITHM_TPD_FAILURE, PH_ERROR_ALGORITHM_RACHFORD_RICE,
      PH_ERROR_ALGORITHM_ANDERSON_FAILURE, PH_ERROR_ALGORITHM_LINE_SEARCH_FAILURE,
      PH_ERROR_ALGORITHM_NEWTON_FAILURE, PH_ERROR_ALGORITHM_EOS_FAILURE,
      PH_ERROR_CONFIG_INVALID, PH_ERROR_CONFIG_MISSING, PH_ERROR_FILE_IO,
      PH_ERROR_SYSTEM_RESOURCE, PH_ERROR_NOT_IMPLEMENTED,
      PH_ERROR_VERSION_INCOMPATIBLE,
      PH_ERROR_UNKNOWN, PH_ERROR_INTERNAL, PH_ERROR_FATAL,
      PH_ERROR_CONVERGENCE, PH_ERROR_INPUT_VALIDATION, PH_ERROR_NUMERICAL,
      PH_ERROR_UNSTABLE, PH_ERROR_SOLUTION_VALIDATION, PH_ERROR_CALCULATION]"

definition PHErrorCode_enumerators :: "PHErrorCode list" where
  "PHErrorCode_enumerators = PH_OK # PHErrorCode_failures"

named_theorems ph_code_defs \<open>the values of the enumerators\<close>

declare
  PH_OK_def [ph_code_defs]
  PH_ERROR_INPUT_NULL_def [ph_code_defs]
  PH_ERROR_INPUT_INVALID_COMPOSITION_def [ph_code_defs]
  PH_ERROR_INPUT_INVALID_PRESSURE_def [ph_code_defs]
  PH_ERROR_INPUT_INVALID_TEMPERATURE_def [ph_code_defs]
  PH_ERROR_INPUT_INVALID_ENTHALPY_def [ph_code_defs]
  PH_ERROR_INPUT_OUT_OF_RANGE_def [ph_code_defs]
  PH_ERROR_INPUT_INCONSISTENT_def [ph_code_defs]
  PH_ERROR_NUMERICAL_OVERFLOW_def [ph_code_defs]
  PH_ERROR_NUMERICAL_UNDERFLOW_def [ph_code_defs]
  PH_ERROR_NUMERICAL_DIVISION_BY_ZERO_def [ph_code_defs]
  PH_ERROR_NUMERICAL_INVALID_RESULT_def [ph_code_defs]
  PH_ERROR_NUMERICAL_PRECISION_LOSS_def [ph_code_defs]
  PH_ERROR_NUMERICAL_MATRIX_SINGULAR_def [ph_code_defs]
  PH_ERROR_CONVERGENCE_MAX_ITERATIONS_def [ph_code_defs]
  PH_ERROR_CONVERGENCE_SLOW_def [ph_code_defs]
  PH_ERROR_CONVERGENCE_OSCILLATION_def [ph_code_defs]
  PH_ERROR_CONVERGENCE_DIVERGENCE_def [ph_code_defs]
  PH_ERROR_CONVERGENCE_STAGNATION_def [ph_code_defs]
  PH_ERROR_CONVERGENCE_TOLERANCE_def [ph_code_defs]
  PH_ERROR_PHYSICAL_NEGATIVE_COMPOSITION_def [ph_code_defs]
  PH_ERROR_PHYSICAL_INVALID_PHASE_def [ph_code_defs]
  PH_ERROR_PHYSICAL_UNSTABLE_SOLUTION_def [ph_code_defs]
  PH_ERROR_PHYSICAL_IMPOSSIBLE_STATE_def [ph_code_defs]
  PH_ERROR_PHYSICAL_CRITICAL_REGION_def [ph_code_defs]
  PH_ERROR_PHYSICAL_FUGACITY_BALANCE_def [ph_code_defs]
  PH_ERROR_MEMORY_ALLOCATION_def [ph_code_defs]
  PH_ERROR_MEMORY_DEALLOCATION_def [ph_code_defs]
  PH_ERROR_MEMORY_CORRUPTION_def [ph_code_defs]
  PH_ERROR_MEMORY_LEAK_def [ph_code_defs]
  PH_ERROR_MEMORY_ACCESS_VIOLATION_def [ph_code_defs]
  PH_ERROR_ALGORITHM_TPD_FAILURE_def [ph_code_defs]
  PH_ERROR_ALGORITHM_RACHFORD_RICE_def [ph_code_defs]
  PH_ERROR_ALGORITHM_ANDERSON_FAILURE_def [ph_code_defs]
  PH_ERROR_ALGORITHM_LINE_SEARCH_FAILURE_def [ph_code_defs]
  PH_ERROR_ALGORITHM_NEWTON_FAILURE_def [ph_code_defs]
  PH_ERROR_ALGORITHM_EOS_FAILURE_def [ph_code_defs]
  PH_ERROR_CONFIG_INVALID_def [ph_code_defs]
  PH_ERROR_CONFIG_MISSING_def [ph_code_defs]
  PH_ERROR_FILE_IO_def [ph_code_defs]
  PH_ERROR_SYSTEM_RESOURCE_def [ph_code_defs]
  PH_ERROR_NOT_IMPLEMENTED_def [ph_code_defs]
  PH_ERROR_VERSION_INCOMPATIBLE_def [ph_code_defs]
  PH_ERROR_UNKNOWN_def [ph_code_defs]
  PH_ERROR_INTERNAL_def [ph_code_defs]
  PH_ERROR_FATAL_def [ph_code_defs]
  PH_ERROR_CONVERGENCE_def [ph_code_defs]
  PH_ERROR_INPUT_VALIDATION_def [ph_code_defs]
  PH_ERROR_NUMERICAL_def [ph_code_defs]
  PH_ERROR_UNSTABLE_def [ph_code_defs]
  PH_ERROR_SOLUTION_VALIDATION_def [ph_code_defs]
  PH_ERROR_CALCULATION_def [ph_code_defs]

section \<open>Phases (include/ph\_defs.h)\<close>

datatype PhaseType = PHASE_LIQUID | PHASE_VAPOR | PHASE_UNKNOWN

section \<open>The cubic equation of the compressibility factor (include/ph\_eos.h)\<close>

text \<open>
  The Peng-Robinson cubic in \<open>Z\<close> for the coefficients \<open>A\<close> and \<open>B\<close>, and the set of its
  real roots.
\<close>

definition cubic_Z :: "real \<Rightarrow> real \<Rightarrow> real \<Rightarrow> real" where
  "cubic_Z A B Z =
     Z ^ 3 - (1 - B) * Z ^ 2 + (A - 3 * B ^ 2 - 2 * B) * Z - (A * B - B ^ 2 - B ^ 3)"

definition real_roots :: "real \<Rightarrow> real \<Rightarrow> real set" where
  "real_roots A B = {Z. cubic_Z A B Z = 0}"

text \<open>
  The largest and the smallest element of a list of candidate roots; both are only applied
  to non-empty lists.
\<close>

fun largest :: "real list \<Rightarrow> real" where
  "largest [] = 0"
| "largest [Z] = Z"
| "largest (Z # Zs) = max Z (largest Zs)"

fun smallest :: "real list \<Rightarrow> real" where
  "smallest [] = 0"
| "smallest [Z] = Z"
| "smallest (Z # Zs) = min Z (smallest Zs)"

text \<open>
  Modelled from the spec: the root finding inside \<^verbatim>\<open>ph_eos_solve_cubic_eq\<close> (section 4.1,
  ``solve analytically (Cardano)'') has no body in the sources. It is modelled by what it
  finds, over the reals in place of doubles: the distinct real roots of the cubic, in
  increasing order. The set of real roots is finite (\<open>finite_real_roots\<close> below).
\<close>

definition cubic_roots :: "real \<Rightarrow> real \<Rightarrow> real list" where
  "cubic_roots A B = sorted_list_of_set (real_roots A B)"

text \<open>
  Modelled from the spec: \<^verbatim>\<open>ph_eos_solve_cubic_eq(A, B, phase, Z)\<close> is declared in
  include/ph\_eos.h and its body is in no file of the sources. The model follows the
  selection rule of section 4.1 of the specification: the solver fails with
  \<^verbatim>\<open>PH_ERROR_NUMERICAL_INVALID_RESULT\<close> when no root exceeds \<open>B\<close>; otherwise a single real
  root is used whatever the phase, the liquid phase takes the smallest root above \<open>B\<close> and
  the vapour phase the largest root that is at least \<open>B\<close>. The failure test guards the
  selection. The specification gives no rule for \<^verbatim>\<open>PHASE_UNKNOWN\<close>; the model takes the
  vapour branch for it. The value is \<open>Inl\<close> of the returned error code, or \<open>Inr\<close> of the
  compressibility factor stored through the pointer \<^verbatim>\<open>Z\<close>.
\<close>

definition ph_eos_solve_cubic_eq :: "real \<Rightarrow> real \<Rightarrow> PhaseType \<Rightarrow> PHErrorCode + real" where
  "ph_eos_solve_cubic_eq A B phase =
     (let roots = cubic_roots A B in
      if filter (\<lambda>Z. B < Z) roots = [] then Inl PH_ERROR_NUMERICAL_INVALID_RESULT
      else (case roots of
              [Z] \<Rightarrow> Inr Z
            | _ \<Rightarrow> (case phase of
                       PHASE_LIQUID \<Rightarrow> Inr (smallest (filter (\<lambda>Z. B < Z) roots))
                     | PHASE_VAPOR \<Rightarrow> Inr (largest (filter (\<lambda>Z. B \<le> Z) roots))
                     | PHASE_UNKNOWN \<Rightarrow> Inr (largest (filter (\<lambda>Z. B \<le> Z) roots)))))"

section \<open>The status encoding\<close>

text \<open>
  Claim C10. In the \<^verbatim>\<open>PHErrorCode\<close> encoding \<^verbatim>\<open>PH_OK\<close> is 0 and every other enumerator
  is strictly negative, so that an enumerator is the success code exactly when it is
  nonnegative; and every compatibility alias has the value of its target:
  \<^verbatim>\<open>PH_ERROR_CONVERGENCE\<close> is \<^verbatim>\<open>PH_ERROR_CONVERGENCE_MAX_ITERATIONS\<close> (-301),
  \<^verbatim>\<open>PH_ERROR_INPUT_VALIDATION\<close> is \<^verbatim>\<open>PH_ERROR_INPUT_NULL\<close> (-101),
  \<^verbatim>\<open>PH_ERROR_NUMERICAL\<close> and \<^verbatim>\<open>PH_ERROR_CALCULATION\<close> are both
  \<^verbatim>\<open>PH_ERROR_NUMERICAL_INVALID_RESULT\<close> (-204), \<^verbatim>\<open>PH_ERROR_UNSTABLE\<close> is
  \<^verbatim>\<open>PH_ERROR_PHYSICAL_UNSTABLE_SOLUTION\<close> (-403) and \<^verbatim>\<open>PH_ERROR_SOLUTION_VALIDATION\<close>
  is \<^verbatim>\<open>PH_ERROR_PHYSICAL_INVALID_PHASE\<close> (-402).
\<close>

theorem PHErrorCode_encoding:
  "PH_OK = 0
   \<and> list_all (\<lambda>c. c < 0) PHErrorCode_failures
   \<and> list_all (\<lambda>c. (c = PH_OK) = (0 \<le> c)) PHErrorCode_enumerators
   \<and> PH_ERROR_CONVERGENCE = PH_ERROR_CONVERGENCE_MAX_ITERATIONS
   \<and> PH_ERROR_CONVERGENCE = - 301
   \<and> PH_ERROR_INPUT_VALIDATION = PH_ERROR_INPUT_NULL
   \<and> PH_ERROR_INPUT_VALIDATION = - 101
   \<and> PH_ERROR_NUMERICAL = PH_ERROR_NUMERICAL_INVALID_RESULT
   \<and> PH_ERROR_CALCULATION = PH_ERROR_NUMERICAL_INVALID_RESULT
   \<and> PH_ERROR_NUMERICAL = PH_ERROR_CALCULATION
   \<and> PH_ERROR_NUMERICAL = - 204
   \<and> PH_ERROR_UNSTABLE = PH_ERROR_PHYSICAL_UNSTABLE_SOLUTION
   \<and> PH_ERROR_UNSTABLE = - 403
   \<and> PH_ERROR_SOLUTION_VALIDATION = PH_ERROR_PHYSICAL_INVALID_PHASE
   \<and> PH_ERROR_SOLUTION_VALIDATION = - 402"
  by (simp add: PHErrorCode_enumerators_def PHErrorCode_failures_def ph_code_defs)

section \<open>Roots of the cubic\<close>

lemma largest_Max: "Zs \<noteq> [] \<Longrightarrow> largest Zs = Max (set Zs)"
  by (induction Zs rule: largest.induct) (auto simp: max_def)

lemma smallest_Min: "Zs \<noteq> [] \<Longrightarrow> smallest Zs = Min (set Zs)"
  by (induction Zs rule: smallest.induct) (auto simp: min_def)

text \<open>
  At \<open>Z = B\<close> the cubic is \<open>- 2 B\<^sup>2\<close>, and it is nonnegative at a point \<open>M \<ge> B\<close> (the
  Cauchy bound of its coefficients). By continuity a real root above \<open>B\<close> exists whenever
  \<open>B \<noteq> 0\<close>.
\<close>

lemma cubic_Z_at_B: "cubic_Z A B B = - 2 * B ^ 2"
  by (simp add: cubic_Z_def power2_eq_square power3_eq_cube algebra_simps)

lemma cubic_Z_cont: "continuous_on S (cubic_Z A B)"
  unfolding cubic_Z_def by (intro continuous_intros)

lemma cubic_Z_large:
  fixes A B :: real
  defines "M \<equiv> 1 + \<bar>1 - B\<bar> + \<bar>A - 3 * B ^ 2 - 2 * B\<bar> + \<bar>A * B - B ^ 2 - B ^ 3\<bar>"
  shows "B \<le> M" and "0 \<le> cubic_Z A B M"
proof -
  show "B \<le> M" unfolding M_def by linarith
  define c2 where "c2 = \<bar>1 - B\<bar>"
  define c1 where "c1 = \<bar>A - 3 * B ^ 2 - 2 * B\<bar>"
  define c0 where "c0 = \<bar>A * B - B ^ 2 - B ^ 3\<bar>"
  have M: "M = 1 + c2 + c1 + c0" by (simp add: M_def c2_def c1_def c0_def)
  have nn: "0 \<le> c2" "0 \<le> c1" "0 \<le> c0" by (simp_all add: c2_def c1_def c0_def)
  have M1: "1 \<le> M" using nn M by linarith
  have MM: "M \<le> M * M" using M1 by (simp add: mult_le_cancel_left1)
  have M2: "1 \<le> M * M" using M1 MM by linarith
  have t2: "(1 - B) * M ^ 2 \<le> c2 * M ^ 2"
    unfolding c2_def by (intro mult_right_mono) auto
  have t1: "- ((A - 3 * B ^ 2 - 2 * B) * M) \<le> c1 * M ^ 2"
  proof -
    define k where "k = A - 3 * B ^ 2 - 2 * B"
    have "- k \<le> c1" by (simp add: c1_def k_def)
    then have "(- k) * M \<le> c1 * M"
      using M1 by (intro mult_right_mono) simp_all
    then have "- (k * M) \<le> c1 * M" by simp
    then have "- ((A - 3 * B ^ 2 - 2 * B) * M) \<le> c1 * M" by (simp only: k_def)
    also have "c1 * M \<le> c1 * M ^ 2"
      using nn MM by (simp add: power2_eq_square mult_left_mono)
    finally show ?thesis .
  qed
  have t0: "A * B - B ^ 2 - B ^ 3 \<le> c0 * M ^ 2"
  proof -
    have "A * B - B ^ 2 - B ^ 3 \<le> c0" by (simp add: c0_def)
    also have "c0 = c0 * 1" by simp
    also have "c0 * 1 \<le> c0 * M ^ 2"
      using nn M2 by (intro mult_left_mono) (simp_all add: power2_eq_square)
    finally show ?thesis .
  qed
  have "M ^ 3 = (1 + c2 + c1 + c0) * M ^ 2"
    using M by (simp add: power3_eq_cube power2_eq_square)
  then have "M ^ 3 = M ^ 2 + c2 * M ^ 2 + c1 * M ^ 2 + c0 * M ^ 2"
    by (simp add: algebra_simps)
  moreover have "0 \<le> M ^ 2" by simp
  ultimately show "0 \<le> cubic_Z A B M"
    unfolding cubic_Z_def using t2 t1 t0 by linarith
qed

lemma root_above_B:
  assumes "B \<noteq> 0"
  shows "\<exists>Z. B < Z \<and> cubic_Z A B Z = 0"
proof -
  define M where "M = 1 + \<bar>1 - B\<bar> + \<bar>A - 3 * B ^ 2 - 2 * B\<bar> + \<bar>A * B - B ^ 2 - B ^ 3\<bar>"
  have BM: "B \<le> M" and pos: "0 \<le> cubic_Z A B M"
    unfolding M_def by (rule cubic_Z_large)+
  have neg: "cubic_Z A B B < 0"
    using assms by (simp add: cubic_Z_at_B)
  from IVT'[of "cubic_Z A B" B 0 M] neg pos BM cubic_Z_cont
  obtain Z where Z: "B \<le> Z" "Z \<le> M" "cubic_Z A B Z = 0"
    by (metis less_eq_real_def)
  with neg have "Z \<noteq> B" by auto
  with Z show ?thesis by (intro exI[of _ Z]) auto
qed

lemma cubic_Z_B0: "cubic_Z A 0 Z = Z * ((Z - 1/2) ^ 2 + (A - 1/4))"
  by (simp add: cubic_Z_def power2_eq_square power3_eq_cube algebra_simps)

lemma no_root_above_0:
  assumes "1/4 < A" "cubic_Z A 0 Z = 0"
  shows "Z = 0"
proof -
  have "0 < (Z - 1/2) ^ 2 + (A - 1/4)"
    using assms(1) by (smt (verit) zero_le_power2)
  with assms(2) show ?thesis by (simp add: cubic_Z_B0)
qed

lemma root_above_0:
  assumes "A \<le> 1/4"
  shows "\<exists>Z. 0 < Z \<and> cubic_Z A 0 Z = 0"
proof -
  define Z where "Z = 1/2 + sqrt (1/4 - A)"
  have "0 \<le> sqrt (1/4 - A)" using assms by simp
  then have "0 < Z" unfolding Z_def by linarith
  moreover have "(Z - 1/2) ^ 2 = 1/4 - A"
    using assms by (simp add: Z_def)
  then have "cubic_Z A 0 Z = 0" by (simp add: cubic_Z_B0)
  ultimately show ?thesis by blast
qed

text \<open>
  A real root above \<open>B\<close> is missing only for \<open>B = 0\<close> and \<open>A > 1/4\<close>; for the coefficients
  of a flash, where \<open>B > 0\<close>, it always exists.
\<close>

lemma root_above_iff: "(\<exists>Z\<in>real_roots A B. B < Z) = (B \<noteq> 0 \<or> A \<le> 1/4)"
proof (cases "B = 0")
  case True
  show ?thesis
  proof (cases "A \<le> 1/4")
    case le: True
    with root_above_0[of A] \<open>B = 0\<close> show ?thesis
      by (auto simp: real_roots_def)
  next
    case gt: False
    then have "\<not> (\<exists>Z\<in>real_roots A 0. 0 < Z)"
      using no_root_above_0[of A] by (fastforce simp: real_roots_def)
    with gt \<open>B = 0\<close> show ?thesis by simp
  qed
next
  case False
  then show ?thesis using root_above_B[of B A] by (auto simp: real_roots_def)
qed


text \<open>
  The cubic has finitely many real roots: it is \<open>Z - r\<close> times a quadratic for any root
  \<open>r\<close>, and a quadratic with a root \<open>s\<close> is a product of two linear factors.
\<close>

lemma finite_quadratic_roots: "finite {Z :: real. Z ^ 2 + u * Z + v = 0}"
proof (cases "\<exists>s. s ^ 2 + u * s + v = 0")
  case False
  then have "{Z :: real. Z ^ 2 + u * Z + v = 0} = {}" by auto
  then show ?thesis by simp
next
  case True
  then obtain s where s: "s ^ 2 + u * s + v = 0" by blast
  have fac: "Z ^ 2 + u * Z + v = (Z - s) * (Z + s + u)" for Z
  proof -
    have "Z ^ 2 + u * Z + v = (Z - s) * (Z + s + u) + (s ^ 2 + u * s + v)"
      by (simp add: power2_eq_square algebra_simps)
    with s show ?thesis by simp
  qed
  have "{Z. Z ^ 2 + u * Z + v = 0} \<subseteq> {s, - s - u}"
  proof
    fix Z assume "Z \<in> {Z. Z ^ 2 + u * Z + v = 0}"
    then have "(Z - s) * (Z + s + u) = 0" using fac[of Z] by simp
    then have "Z - s = 0 \<or> Z + s + u = 0" by (simp only: mult_eq_0_iff)
    then show "Z \<in> {s, - s - u}" by auto
  qed
  then show ?thesis by (rule finite_subset) simp
qed

lemma cubic_Z_factor:
  "cubic_Z A B Z = (Z - r) * (Z ^ 2 + (r - (1 - B)) * Z + (r ^ 2 - (1 - B) * r + (A - 3 * B ^ 2 - 2 * B)))
                   + cubic_Z A B r"
  unfolding cubic_Z_def power2_eq_square power3_eq_cube by (simp add: algebra_simps)

lemma finite_real_roots: "finite (real_roots A B)"
proof (cases "\<exists>r. cubic_Z A B r = 0")
  case False
  then have "real_roots A B = {}" by (auto simp: real_roots_def)
  then show ?thesis by simp
next
  case True
  then obtain r where r: "cubic_Z A B r = 0" by blast
  let ?u = "r - (1 - B)" and ?v = "r ^ 2 - (1 - B) * r + (A - 3 * B ^ 2 - 2 * B)"
  have "real_roots A B \<subseteq> insert r {Z. Z ^ 2 + ?u * Z + ?v = 0}"
  proof
    fix Z assume "Z \<in> real_roots A B"
    then have "cubic_Z A B Z = 0" by (simp add: real_roots_def)
    then have "(Z - r) * (Z ^ 2 + ?u * Z + ?v) = 0"
      using cubic_Z_factor[of A B Z r] r by simp
    then have "Z - r = 0 \<or> Z ^ 2 + ?u * Z + ?v = 0" by (simp only: mult_eq_0_iff)
    then show "Z \<in> insert r {Z. Z ^ 2 + ?u * Z + ?v = 0}" by auto
  qed
  moreover have "finite (insert r {Z. Z ^ 2 + ?u * Z + ?v = 0})"
    using finite_quadratic_roots[of ?u ?v] by simp
  ultimately show ?thesis by (rule finite_subset)
qed

lemma set_cubic_roots: "set (cubic_roots A B) = real_roots A B"
  by (simp add: cubic_roots_def finite_real_roots)

lemma cubic_roots_single: "cubic_roots A B = [r] \<longleftrightarrow> real_roots A B = {r}"
proof
  assume "cubic_roots A B = [r]"
  then have "set (cubic_roots A B) = {r}" by simp
  then show "real_roots A B = {r}" by (simp only: set_cubic_roots)
next
  assume "real_roots A B = {r}"
  then show "cubic_roots A B = [r]" by (simp add: cubic_roots_def)
qed

lemma largest_above:
  assumes "Z0 \<in> set Zs" "B < Z0"
  defines "Z \<equiv> largest (filter (\<lambda>Z. B \<le> Z) Zs)"
  shows "Z \<in> set Zs" "B < Z" "\<forall>Z'\<in>set Zs. Z' \<le> Z"
proof -
  let ?c = "filter (\<lambda>Z. B \<le> Z) Zs"
  have mem: "Z0 \<in> set ?c" using assms by simp
  have ne: "?c \<noteq> []" using mem by (metis empty_iff empty_set)
  then have Zmax: "Z = Max (set ?c)" by (simp add: Z_def largest_Max)
  have ne': "set ?c \<noteq> {}" using ne by (simp only: set_empty not_False_eq_True)
  have "Z \<in> set ?c" unfolding Zmax by (rule Max_in[OF finite_set ne'])
  then show "Z \<in> set Zs" by simp
  have ge: "Z' \<le> Z" if "Z' \<in> set ?c" for Z'
    unfolding Zmax using that by (intro Max_ge) auto
  from ge[OF mem] assms(2) show BZ: "B < Z" by simp
  show "\<forall>Z'\<in>set Zs. Z' \<le> Z"
  proof
    fix Z' assume "Z' \<in> set Zs"
    show "Z' \<le> Z"
    proof (cases "B \<le> Z'")
      case True
      with \<open>Z' \<in> set Zs\<close> show ?thesis by (intro ge) simp
    next
      case False
      with BZ show ?thesis by simp
    qed
  qed
qed

lemma smallest_above:
  assumes "Z0 \<in> set Zs" "B < Z0"
  defines "Z \<equiv> smallest (filter (\<lambda>Z. B < Z) Zs)"
  shows "Z \<in> set Zs" "B < Z" "\<forall>Z'\<in>set Zs. B < Z' \<longrightarrow> Z \<le> Z'"
proof -
  let ?c = "filter (\<lambda>Z. B < Z) Zs"
  have mem: "Z0 \<in> set ?c" using assms by simp
  have ne: "?c \<noteq> []" using mem by (metis empty_iff empty_set)
  then have Zmin: "Z = Min (set ?c)" by (simp add: Z_def smallest_Min)
  have ne': "set ?c \<noteq> {}" using ne by (simp only: set_empty not_False_eq_True)
  have "Z \<in> set ?c" unfolding Zmin by (rule Min_in[OF finite_set ne'])
  then show "Z \<in> set Zs" "B < Z" by simp_all
  have le: "Z \<le> Z'" if "Z' \<in> set ?c" for Z'
    unfolding Zmin using that by (intro Min_le) auto
  show "\<forall>Z'\<in>set Zs. B < Z' \<longrightarrow> Z \<le> Z'"
  proof (intro ballI impI)
    fix Z' assume "Z' \<in> set Zs" "B < Z'"
    then show "Z \<le> Z'" by (intro le) simp
  qed
qed

section \<open>The root selection of the cubic solver\<close>

text \<open>
  Claim C2. For every coefficient pair \<open>A\<close>, \<open>B\<close> and every phase, the cubic solver fails
  with \<^verbatim>\<open>PH_ERROR_NUMERICAL_INVALID_RESULT\<close> if and only if the cubic has no real root above
  \<open>B\<close>. When it has one: for the vapour phase the solver returns the largest real root that
  is at least \<open>B\<close>, for the liquid phase the smallest real root above \<open>B\<close>, and when the
  cubic has a single real root it returns that root whatever the phase.
\<close>

theorem ph_eos_solve_cubic_eq_selection:
  "((ph_eos_solve_cubic_eq A B phase = Inl PH_ERROR_NUMERICAL_INVALID_RESULT)
       = (\<not> (\<exists>Z\<in>real_roots A B. B < Z)))
   \<and> ((\<exists>Z\<in>real_roots A B. B < Z) \<longrightarrow>
         (phase = PHASE_VAPOR \<longrightarrow>
            (\<exists>Z\<in>real_roots A B. ph_eos_solve_cubic_eq A B phase = Inr Z
                 \<and> B \<le> Z \<and> (\<forall>Z'\<in>real_roots A B. B \<le> Z' \<longrightarrow> Z' \<le> Z)))
       \<and> (phase = PHASE_LIQUID \<longrightarrow>
            (\<exists>Z\<in>real_roots A B. ph_eos_solve_cubic_eq A B phase = Inr Z
                 \<and> B < Z \<and> (\<forall>Z'\<in>real_roots A B. B < Z' \<longrightarrow> Z \<le> Z')))
       \<and> (\<forall>r. real_roots A B = {r} \<longrightarrow> ph_eos_solve_cubic_eq A B phase = Inr r))"
proof (intro conjI impI allI)
  let ?Zs = "cubic_roots A B"
  note roots = set_cubic_roots[of A B]
  have empty_conv: "(filter (\<lambda>Z. B < Z) ?Zs = []) = (\<not> (\<exists>Z\<in>real_roots A B. B < Z))"
    by (auto simp: filter_empty_conv roots[symmetric])
  show "(ph_eos_solve_cubic_eq A B phase = Inl PH_ERROR_NUMERICAL_INVALID_RESULT)
          = (\<not> (\<exists>Z\<in>real_roots A B. B < Z))"
    unfolding empty_conv[symmetric]
    by (simp add: ph_eos_solve_cubic_eq_def Let_def split: list.splits PhaseType.splits)
  {
    assume ex: "\<exists>Z\<in>real_roots A B. B < Z"
    then obtain Z0 where Z0: "Z0 \<in> set ?Zs" "B < Z0" using roots by auto
    have ne: "filter (\<lambda>Z. B < Z) ?Zs \<noteq> []" using ex empty_conv by simp
    {
      assume ph: "phase = PHASE_VAPOR"
      show "\<exists>Z\<in>real_roots A B. ph_eos_solve_cubic_eq A B phase = Inr Z
                 \<and> B \<le> Z \<and> (\<forall>Z'\<in>real_roots A B. B \<le> Z' \<longrightarrow> Z' \<le> Z)"
      proof (cases "\<exists>r. ?Zs = [r]")
        case True
        then obtain r where r: "?Zs = [r]" by blast
        then have s: "real_roots A B = {r}" by (simp only: cubic_roots_single)
        with Z0 roots have "B < r" by simp
        moreover have "ph_eos_solve_cubic_eq A B phase = Inr r"
          using ne r by (simp add: ph_eos_solve_cubic_eq_def Let_def)
        ultimately show ?thesis using s by auto
      next
        case False
        then have "ph_eos_solve_cubic_eq A B phase
                     = Inr (largest (filter (\<lambda>Z. B \<le> Z) ?Zs))"
          using ne ph by (auto simp: ph_eos_solve_cubic_eq_def Let_def split: list.splits)
        with largest_above[OF Z0] roots show ?thesis by auto
      qed
    }
    {
      assume ph: "phase = PHASE_LIQUID"
      show "\<exists>Z\<in>real_roots A B. ph_eos_solve_cubic_eq A B phase = Inr Z
                 \<and> B < Z \<and> (\<forall>Z'\<in>real_roots A B. B < Z' \<longrightarrow> Z \<le> Z')"
      proof (cases "\<exists>r. ?Zs = [r]")
        case True
        then obtain r where r: "?Zs = [r]" by blast
        then have s: "real_roots A B = {r}" by (simp only: cubic_roots_single)
        with Z0 roots have "B < r" by simp
        moreover have "ph_eos_solve_cubic_eq A B phase = Inr r"
          using ne r by (simp add: ph_eos_solve_cubic_eq_def Let_def)
        ultimately show ?thesis using s by auto
      next
        case False
        then have "ph_eos_solve_cubic_eq A B phase
                     = Inr (smallest (filter (\<lambda>Z. B < Z) ?Zs))"
          using ne ph by (auto simp: ph_eos_solve_cubic_eq_def Let_def split: list.splits)
        with smallest_above[OF Z0] roots show ?thesis by auto
      qed
    }
    {
      fix r assume "real_roots A B = {r}"
      then have "?Zs = [r]" by (simp only: cubic_roots_single)
      then show "ph_eos_solve_cubic_eq A B phase = Inr r"
        using ne by (simp add: ph_eos_solve_cubic_eq_def Let_def)
    }
  }
qed

text \<open>
  Three inputs. For \<open>A = 119/324\<close> and \<open>B = 1/18\<close> the cubic is
  \<open>(Z - 1/9) (Z - 5/18) (Z - 5/9)\<close>, with three real roots above \<open>B\<close>. For \<open>A = 17/4\<close> and
  \<open>B = 1\<close> it is \<open>(Z - 3/2) ((Z + 3/4)\<^sup>2 + 15/16)\<close>, with the single real root \<open>3/2\<close>. For
  \<open>A = 1\<close> and \<open>B = 0\<close> it is \<open>Z ((Z - 1/2)\<^sup>2 + 3/4)\<close>, whose only real root is \<open>0 = B\<close>.
\<close>

lemma cubic_Z_example:
  "cubic_Z (119/324) (1/18) Z = (Z - 1/9) * (Z - 5/18) * (Z - 5/9)"
  unfolding cubic_Z_def power2_eq_square power3_eq_cube by (simp add: field_simps)

lemma real_roots_example: "set [1/9, 5/18, 5/9] = real_roots (119/324) (1/18)"
  by (auto simp: real_roots_def cubic_Z_example)

lemma cubic_Z_single:
  "cubic_Z (17/4) 1 Z = (Z - 3/2) * ((Z + 3/4) ^ 2 + 15/16)"
  unfolding cubic_Z_def power2_eq_square power3_eq_cube by (simp add: field_simps)

lemma real_roots_single: "real_roots (17/4) 1 = {3/2}"
proof -
  have pos: "(Z + 3/4) ^ 2 + 15/16 \<noteq> 0" for Z :: real
    using zero_le_power2[of "Z + 3/4"] by linarith
  have root: "cubic_Z (17/4) 1 Z = 0 \<longleftrightarrow> Z = 3/2" for Z
    unfolding cubic_Z_single mult_eq_0_iff using pos[of Z] by simp
  show ?thesis by (simp only: real_roots_def root singleton_conv)
qed

lemma real_roots_1_0: "real_roots 1 0 = {0}"
proof -
  have "cubic_Z 1 0 Z = 0 \<longleftrightarrow> Z = 0" for Z
    using no_root_above_0[of 1 Z] by (auto simp: cubic_Z_B0)
  then show ?thesis by (auto simp: real_roots_def)
qed

lemma cubic_roots_example: "cubic_roots (119/324) (1/18) = [1/9, 5/18, 5/9]"
proof -
  have "real_roots (119/324) (1/18) = {1/9, 5/18, 5/9}"
    using real_roots_example by simp
  then show ?thesis by (simp add: cubic_roots_def)
qed

text \<open>
  Claim C2 at the three inputs: at \<open>A = 119/324\<close>, \<open>B = 1/18\<close> the vapour phase gets \<open>5/9\<close>
  and the liquid phase \<open>1/9\<close>; at \<open>A = 17/4\<close>, \<open>B = 1\<close> both phases get the single real root
  \<open>3/2\<close>; at \<open>A = 1\<close>, \<open>B = 0\<close> no real root is above \<open>B\<close> and the solver fails.
\<close>

theorem ph_eos_solve_cubic_eq_selection_witness:
  "(\<exists>Z\<in>real_roots (119/324) (1/18). 1/18 < Z)
   \<and> ph_eos_solve_cubic_eq (119/324) (1/18) PHASE_VAPOR = Inr (5/9)
   \<and> ph_eos_solve_cubic_eq (119/324) (1/18) PHASE_LIQUID = Inr (1/9)
   \<and> (\<exists>Z\<in>real_roots (119/324) (1/18).
         ph_eos_solve_cubic_eq (119/324) (1/18) PHASE_VAPOR = Inr Z
         \<and> 1/18 \<le> Z \<and> (\<forall>Z'\<in>real_roots (119/324) (1/18). 1/18 \<le> Z' \<longrightarrow> Z' \<le> Z))
   \<and> (\<exists>Z\<in>real_roots (119/324) (1/18).
         ph_eos_solve_cubic_eq (119/324) (1/18) PHASE_LIQUID = Inr Z
         \<and> 1/18 < Z \<and> (\<forall>Z'\<in>real_roots (119/324) (1/18). 1/18 < Z' \<longrightarrow> Z \<le> Z'))
   \<and> real_roots (17/4) 1 = {3/2}
   \<and> ph_eos_solve_cubic_eq (17/4) 1 PHASE_LIQUID = Inr (3/2)
   \<and> ph_eos_solve_cubic_eq (17/4) 1 PHASE_VAPOR = Inr (3/2)
   \<and> real_roots 1 0 = {0}
   \<and> ph_eos_solve_cubic_eq 1 0 PHASE_VAPOR = Inl PH_ERROR_NUMERICAL_INVALID_RESULT"
proof -
  have ex: "\<exists>Z\<in>real_roots (119/324) (1/18). 1/18 < Z"
    unfolding real_roots_example[symmetric] by simp
  have v: "ph_eos_solve_cubic_eq (119/324) (1/18) PHASE_VAPOR = Inr (5/9)"
    by (simp add: ph_eos_solve_cubic_eq_def cubic_roots_example)
  have l: "ph_eos_solve_cubic_eq (119/324) (1/18) PHASE_LIQUID = Inr (1/9)"
    by (simp add: ph_eos_solve_cubic_eq_def cubic_roots_example)
  note tv = ph_eos_solve_cubic_eq_selection[of "119/324" "1/18" PHASE_VAPOR, THEN conjunct2,
      THEN mp, OF ex, THEN conjunct1, THEN mp, OF refl]
  note tl = ph_eos_solve_cubic_eq_selection[of "119/324" "1/18" PHASE_LIQUID, THEN conjunct2,
      THEN mp, OF ex, THEN conjunct2, THEN conjunct1, THEN mp, OF refl]
  have ex1: "\<exists>Z\<in>real_roots (17/4) 1. 1 < Z"
    unfolding real_roots_single by (rule bexI[of _ "3/2"]) simp_all
  note sl = ph_eos_solve_cubic_eq_selection[of "17/4" 1 PHASE_LIQUID, THEN conjunct2,
      THEN mp, OF ex1, THEN conjunct2, THEN conjunct2, THEN spec[of _ "3/2"], THEN mp,
      OF real_roots_single]
  note sv = ph_eos_solve_cubic_eq_selection[of "17/4" 1 PHASE_VAPOR, THEN conjunct2,
      THEN mp, OF ex1, THEN conjunct2, THEN conjunct2, THEN spec[of _ "3/2"], THEN mp,
      OF real_roots_single]
  have none: "\<not> (\<exists>Z\<in>real_roots 1 0. 0 < Z)"
    unfolding real_roots_1_0 by simp
  note f = ph_eos_solve_cubic_eq_selection[of 1 0 PHASE_VAPOR, THEN conjunct1, THEN iffD2,
      OF none]
  from ex v l tv tl real_roots_single sl sv real_roots_1_0 f
  show ?thesis by (intro conjI)
qed

end
